theory Spec2Isabelle
  imports Main "HOL-Library.Multiset" "HOL-Library.Code_Target_Numeral"
begin

section \<open>The migration context of gh-ost (go/base/context.go)\<close>

text \<open>
  The file embeds \<^verbatim>\<open>go/base/context.go\<close>: the record \<^verbatim>\<open>MigrationContext\<close>, its
  constructor, the derived table and lock names, the three derived booleans, the parser of
  the \<^verbatim>\<open>--max-load\<close> flag and the credential layering.

  Conventions of the embedding.
  \<^item> A Go \<^verbatim>\<open>string\<close> is a sequence of bytes: a \<open>string\<close> (a list of 8-bit \<open>char\<close>).
  \<^item> An \<^verbatim>\<open>int64\<close> field is an \<open>int\<close>. No function of this file computes with one; the
    only place that produces one is \<^verbatim>\<open>strconv.ParseInt\<close>, whose range check is written out.
  \<^item> A pointer is \<open>None\<close> (\<^verbatim>\<open>nil\<close>) or \<open>Some a\<close> for an address \<open>a\<close>. Go has no dangling
    pointers, so every address of a \<^verbatim>\<open>*mysql.ConnectionConfig\<close> holds a configuration: the
    store of configurations is a total function of the address. Two pointer fields may hold
    the same address.
  \<^item> A method that dereferences \<^verbatim>\<open>nil\<close> or writes to a \<^verbatim>\<open>nil\<close> map panics: its result is
    \<open>Panics\<close>. A Go \<^verbatim>\<open>error\<close> result is an \<open>error option\<close>, \<open>None\<close> for \<^verbatim>\<open>nil\<close>.
  \<^item> The embedding is sequential. A mutex is free when a method is entered and free again
    when it returns (\<^verbatim>\<open>defer Unlock\<close>), so \<^verbatim>\<open>Lock\<close> and \<^verbatim>\<open>Unlock\<close> leave no trace but the
    panic on a \<^verbatim>\<open>nil\<close> mutex.
\<close>

type_synonym addr = nat

type_synonym ptr = "addr option"

datatype 'a outcome = Panics | Returns 'a

text \<open>The value \<^verbatim>\<open>fmt.Errorf\<close> returns: an error that carries its formatted message.\<close>

datatype error = Errorf string

text \<open>\<^verbatim>\<open>time.Time\<close>: an instant, counted from the zero value of the type.\<close>

type_synonym Time = int

text \<open>
  Modelled from the spec: the type \<^verbatim>\<open>mysql.ConnectionConfig\<close> is declared in
  \<^verbatim>\<open>go/mysql\<close>, which is not under src/. The spec (section 6) describes a connection
  identity as "a host/port/credential tuple"; \<^verbatim>\<open>User\<close> and \<^verbatim>\<open>Password\<close> are the two fields
  that \<^verbatim>\<open>ApplyCredentials\<close> assigns.
\<close>

record ConnectionConfig =
  Hostname :: string
  Port :: int
  User :: string
  Password :: string

text \<open>The store of connection configurations that the pointers of a context refer to.\<close>

type_synonym conns = "addr \<Rightarrow> ConnectionConfig"

text \<open>\<^verbatim>\<open>ContextConfig\<close>: the two nested structs \<^verbatim>\<open>Client\<close> and \<^verbatim>\<open>Osc\<close>, flattened.\<close>

record ContextConfig =
  Client_User :: string
  Client_Password :: string
  Osc_Chunk_Size :: int
  Osc_Max_Lag_Millis :: int
  Osc_Replication_Lag_Query :: string
  Osc_Max_Load :: string

text \<open>
  \<^verbatim>\<open>MigrationContext\<close>, field by field in the order of the source. \<^verbatim>\<open>MaxLoad\<close> is a Go
  map: \<open>None\<close> is the \<^verbatim>\<open>nil\<close> map (reads as empty, panics when written), \<open>Some m\<close> a map
  made by \<^verbatim>\<open>make\<close>. \<^verbatim>\<open>RowsEstimateMethod\<close> is a string type and \<^verbatim>\<open>CutOver\<close> an int type.
  \<^verbatim>\<open>CanStopStreaming\<close> is a function value, held by reference.
\<close>

record MigrationContext =
  DatabaseName :: string
  OriginalTableName :: string
  AlterStatement :: string

  CountTableRows :: bool
  AllowedRunningOnMaster :: bool
  SwitchToRowBinlogFormat :: bool
  NullableUniqueKeyAllowed :: bool

  config :: ContextConfig
  configMutex :: ptr
  ConfigFile :: string
  CliUser :: string
  CliPassword :: string

  ChunkSize :: int
  MaxLagMillisecondsThrottleThreshold :: int
  ReplictionLagQuery :: string
  ThrottleControlReplicaKeys :: ptr
  ThrottleFlagFile :: string
  ThrottleAdditionalFlagFile :: string
  MaxLoad :: "(string \<rightharpoonup> int) option"
  PostponeSwapTablesFlagFile :: string
  SwapTablesTimeoutSeconds :: int

  Noop :: bool
  TestOnReplica :: bool
  OkToDropTable :: bool
  InitiallyDropOldTable :: bool
  InitiallyDropGhostTable :: bool
  CutOverType :: int

  TableEngine :: string
  RowsEstimate :: int
  UsedRowsEstimateMethod :: string
  OriginalBinlogFormat :: string
  OriginalBinlogRowImage :: string
  InspectorConnectionConfig :: ptr
  ApplierConnectionConfig :: ptr
  StartTime :: Time
  RowCopyStartTime :: Time
  LockTablesStartTime :: Time
  RenameTablesStartTime :: Time
  RenameTablesEndTime :: Time
  pointOfInterestTime :: Time
  pointOfInterestTimeMutex :: ptr
  CurrentLag :: int
  TotalRowsCopied :: int
  TotalDMLEventsApplied :: int
  isThrottled :: bool
  throttleReason :: string
  throttleMutex :: ptr

  OriginalTableColumns :: ptr
  OriginalTableUniqueKeys :: "ptr list"
  GhostTableColumns :: ptr
  GhostTableUniqueKeys :: "ptr list"
  UniqueKey :: ptr
  SharedColumns :: ptr
  MigrationRangeMinValues :: ptr
  MigrationRangeMaxValues :: ptr
  Iteration :: int
  MigrationIterationRangeMinValues :: ptr
  MigrationIterationRangeMaxValues :: ptr

  CanStopStreaming :: ptr

text \<open>
  A program state: the context and the store of connection configurations its two
  pointers refer to.
\<close>

type_synonym state = "MigrationContext \<times> conns"


definition andThen :: "'a outcome \<Rightarrow> ('a \<Rightarrow> 'b outcome) \<Rightarrow> 'b outcome" where
  "andThen r f = (case r of Panics \<Rightarrow> Panics | Returns x \<Rightarrow> f x)"

subsection \<open>The constructor\<close>

text \<open>
  \<^verbatim>\<open>newMigrationContext\<close> sets ten fields and leaves every other field at the zero value
  of its type. The package \<^verbatim>\<open>go/mysql\<close> is not under src/: the configuration that
  \<^verbatim>\<open>mysql.NewConnectionConfig()\<close> allocates is the parameter \<open>ncc\<close>. The two calls allocate
  two objects, at the addresses 0 and 1 of the store; the three mutexes and the key map
  are fresh objects of their own types.
\<close>

definition zeroContextConfig :: ContextConfig where
  "zeroContextConfig =
     \<lparr>Client_User = [], Client_Password = [], Osc_Chunk_Size = 0, Osc_Max_Lag_Millis = 0,
      Osc_Replication_Lag_Query = [], Osc_Max_Load = []\<rparr>"

definition newMigrationContext :: "ConnectionConfig \<Rightarrow> state" where
  "newMigrationContext ncc =
     (\<lparr>DatabaseName = [], OriginalTableName = [], AlterStatement = [],
       CountTableRows = False, AllowedRunningOnMaster = False,
       SwitchToRowBinlogFormat = False, NullableUniqueKeyAllowed = False,
       config = zeroContextConfig, configMutex = Some 1, ConfigFile = [],
       CliUser = [], CliPassword = [],
       ChunkSize = 1000,
       MaxLagMillisecondsThrottleThreshold = 1000,
       ReplictionLagQuery = [], ThrottleControlReplicaKeys = Some 0,
       ThrottleFlagFile = [], ThrottleAdditionalFlagFile = [],
       MaxLoad = Some Map.empty,
       PostponeSwapTablesFlagFile = [],
       SwapTablesTimeoutSeconds = 3,
       Noop = False, TestOnReplica = False, OkToDropTable = False,
       InitiallyDropOldTable = False, InitiallyDropGhostTable = False, CutOverType = 0,
       TableEngine = [], RowsEstimate = 0, UsedRowsEstimateMethod = [],
       OriginalBinlogFormat = [], OriginalBinlogRowImage = [],
       InspectorConnectionConfig = Some 0,
       ApplierConnectionConfig = Some 1,
       StartTime = 0, RowCopyStartTime = 0, LockTablesStartTime = 0,
       RenameTablesStartTime = 0, RenameTablesEndTime = 0,
       pointOfInterestTime = 0, pointOfInterestTimeMutex = Some 2,
       CurrentLag = 0, TotalRowsCopied = 0, TotalDMLEventsApplied = 0,
       isThrottled = False, throttleReason = [], throttleMutex = Some 0,
       OriginalTableColumns = None, OriginalTableUniqueKeys = [],
       GhostTableColumns = None, GhostTableUniqueKeys = [],
       UniqueKey = None, SharedColumns = None,
       MigrationRangeMinValues = None, MigrationRangeMaxValues = None,
       Iteration = 0,
       MigrationIterationRangeMinValues = None, MigrationIterationRangeMaxValues = None,
       CanStopStreaming = None\<rparr>,
      (\<lambda>a. ncc))"

subsection \<open>Derived names and derived booleans\<close>

text \<open>\<^verbatim>\<open>fmt.Sprintf\<close> with the verb \<^verbatim>\<open>%s\<close> copies the bytes of a string argument.\<close>

definition GetGhostTableName :: "MigrationContext \<Rightarrow> string" where
  "GetGhostTableName this = ''_'' @ OriginalTableName this @ ''_gst''"

definition GetOldTableName :: "MigrationContext \<Rightarrow> string" where
  "GetOldTableName this = ''_'' @ OriginalTableName this @ ''_old''"

definition GetChangelogTableName :: "MigrationContext \<Rightarrow> string" where
  "GetChangelogTableName this = ''_'' @ OriginalTableName this @ ''_osc''"

definition GetVoluntaryLockName :: "MigrationContext \<Rightarrow> string" where
  "GetVoluntaryLockName this =
     DatabaseName this @ ''.'' @ OriginalTableName this @ ''.lock''"

definition RequiresBinlogFormatChange :: "MigrationContext \<Rightarrow> bool" where
  "RequiresBinlogFormatChange this \<longleftrightarrow> OriginalBinlogFormat this \<noteq> ''ROW''"

text \<open>
  Modelled from the spec: the method \<^verbatim>\<open>Equals\<close> of \<^verbatim>\<open>mysql.ConnectionConfig\<close> is defined in
  \<^verbatim>\<open>go/mysql\<close>, which is not under src/. The spec (section 6): "two named roles
  (inspector, applier), each a host/port/credential tuple; equality between them is a
  first-class condition (InspectorIsAlsoApplier)". So \<open>Equals\<close> compares the tuples.
\<close>

definition Equals :: "ConnectionConfig \<Rightarrow> ConnectionConfig \<Rightarrow> bool" where
  "Equals this other \<longleftrightarrow>
     Hostname this = Hostname other \<and> Port this = Port other \<and>
     User this = User other \<and> Password this = Password other"

text \<open>
  \<^verbatim>\<open>InspectorIsAlsoApplier\<close> passes the two pointers to \<open>Equals\<close>, which reads the fields
  of both: a \<^verbatim>\<open>nil\<close> pointer on either side is a \<^verbatim>\<open>nil\<close> dereference.
\<close>

definition InspectorIsAlsoApplier :: "state \<Rightarrow> bool outcome" where
  "InspectorIsAlsoApplier s =
     (case s of (this, h) \<Rightarrow>
        (case InspectorConnectionConfig this of
           None \<Rightarrow> Panics
         | Some a \<Rightarrow>
             (case ApplierConnectionConfig this of
                None \<Rightarrow> Panics
              | Some b \<Rightarrow> Returns (Equals (h a) (h b)))))"

definition HasMigrationRange :: "MigrationContext \<Rightarrow> bool" where
  "HasMigrationRange this \<longleftrightarrow>
     MigrationRangeMinValues this \<noteq> None \<and> MigrationRangeMaxValues this \<noteq> None"

text \<open>What the applier pointer of a state refers to (\<open>None\<close> for a \<^verbatim>\<open>nil\<close> pointer).\<close>

definition applier_config :: "state \<Rightarrow> ConnectionConfig option" where
  "applier_config s = map_option (snd s) (ApplierConnectionConfig (fst s))"

subsection \<open>ApplyCredentials\<close>

text \<open>
  The assignments \<^verbatim>\<open>p.User = v\<close> and \<^verbatim>\<open>p.Password = v\<close> through a pointer \<open>p\<close>.
\<close>

definition assign_User :: "ptr \<Rightarrow> string \<Rightarrow> conns \<Rightarrow> conns outcome" where
  "assign_User p v h =
     (case p of None \<Rightarrow> Panics | Some a \<Rightarrow> Returns (h(a := (h a)\<lparr>User := v\<rparr>)))"

definition assign_Password :: "ptr \<Rightarrow> string \<Rightarrow> conns \<Rightarrow> conns outcome" where
  "assign_Password p v h =
     (case p of None \<Rightarrow> Panics | Some a \<Rightarrow> Returns (h(a := (h a)\<lparr>Password := v\<rparr>)))"

definition ApplyCredentials :: "state \<Rightarrow> state outcome" where
  "ApplyCredentials s =
     (case s of (this, h) \<Rightarrow>
        if configMutex this = None then Panics
        else
          andThen (if Client_User (config this) \<noteq> []
                   then assign_User (InspectorConnectionConfig this) (Client_User (config this)) h
                   else Returns h) (\<lambda>h1.
          andThen (if CliUser this \<noteq> []
                   then assign_User (InspectorConnectionConfig this) (CliUser this) h1
                   else Returns h1) (\<lambda>h2.
          andThen (if Client_Password (config this) \<noteq> []
                   then assign_Password (InspectorConnectionConfig this)
                          (Client_Password (config this)) h2
                   else Returns h2) (\<lambda>h3.
          andThen (if CliPassword this \<noteq> []
                   then assign_Password (InspectorConnectionConfig this) (CliPassword this) h3
                   else Returns h3) (\<lambda>h4.
          Returns (this, h4))))))"

subsection \<open>The two library functions that ReadMaxLoad calls\<close>

text \<open>
  \<^verbatim>\<open>strings.Split(s, sep)\<close> of Go's standard library, for a separator of one byte (the
  source passes \<^verbatim>\<open>","\<close> and \<^verbatim>\<open>"="\<close>): it scans \<open>s\<close> once, closes the current token at
  every separator, and the rest of the string is the last token. The result has one
  element more than \<open>s\<close> has separators; \<^verbatim>\<open>Split("", ",")\<close> is \<^verbatim>\<open>[""]\<close>.
\<close>

fun genSplit :: "char \<Rightarrow> string \<Rightarrow> string \<Rightarrow> string list" where
  "genSplit sep tok [] = [tok]"
| "genSplit sep tok (c # cs) =
     (if c = sep then tok # genSplit sep [] cs else genSplit sep (tok @ [c]) cs)"

definition Split :: "string \<Rightarrow> char \<Rightarrow> string list" where
  "Split s sep = genSplit sep [] s"

text \<open>
  \<^verbatim>\<open>strconv.ParseInt(s, 10, 0)\<close> of Go's standard library. Bit size 0 is the size of
  \<^verbatim>\<open>int\<close>: 64 bits on the platforms gh-ost is built for. \<^verbatim>\<open>ParseUint\<close> reads the digits into
  a \<^verbatim>\<open>uint64\<close>; its two overflow tests (before the multiplication by the base, after the
  addition of the digit) are written on natural numbers. At base 10 a letter is a digit
  value of 10 or more, a syntax error like any other byte that is not a decimal digit.
\<close>

datatype NumError = ErrSyntax | ErrRange

definition maxUint64 :: nat where
  "maxUint64 = 2 ^ 64 - 1"

definition byte :: "char \<Rightarrow> nat" where
  "byte c = of_char c"

fun ParseUint_loop :: "nat \<Rightarrow> string \<Rightarrow> NumError + nat" where
  "ParseUint_loop n [] = Inr n"
| "ParseUint_loop n (d # ds) =
     (if \<not> (byte CHR ''0'' \<le> byte d \<and> byte d \<le> byte CHR ''9'') then Inl ErrSyntax
      else if n \<ge> maxUint64 div 10 + 1 then Inl ErrRange
      else if n * 10 + (byte d - byte CHR ''0'') > maxUint64 then Inl ErrRange
      else ParseUint_loop (n * 10 + (byte d - byte CHR ''0'')) ds)"

definition ParseUint :: "string \<Rightarrow> NumError + nat" where
  "ParseUint s = (if s = [] then Inl ErrSyntax else ParseUint_loop 0 s)"

text \<open>
  \<^verbatim>\<open>ParseInt\<close> picks off one leading sign, parses the rest unsigned and checks the signed
  range. A range error of \<^verbatim>\<open>ParseUint\<close> comes with the value \<open>maxUint64\<close> and is a range
  error here as well.
\<close>

definition ParseInt :: "string \<Rightarrow> NumError + int" where
  "ParseInt s =
     (case s of
        [] \<Rightarrow> Inl ErrSyntax
      | c # cs \<Rightarrow>
          (let neg = (c = CHR ''-'');
               s1 = (if c = CHR ''+'' \<or> c = CHR ''-'' then cs else s)
           in case ParseUint s1 of
                Inl ErrSyntax \<Rightarrow> Inl ErrSyntax
              | r \<Rightarrow>
                  (let un = (case r of Inr n \<Rightarrow> n | Inl e \<Rightarrow> maxUint64);
                       cutoff = (2::nat) ^ 63
                   in if \<not> neg \<and> un \<ge> cutoff then Inl ErrRange
                      else if neg \<and> un > cutoff then Inl ErrRange
                      else Inr (if neg then - int un else int un))))"

subsection \<open>ReadMaxLoad\<close>

text \<open>
  The loop over the conditions. Each of the three \<^verbatim>\<open>return fmt.Errorf(...)\<close> leaves the
  loop with the context as it is at that moment; the assignment
  \<^verbatim>\<open>this.MaxLoad[maxLoadTokens[0]] = n\<close> panics on a \<^verbatim>\<open>nil\<close> map.
\<close>

fun ReadMaxLoad_loop ::
  "string list \<Rightarrow> MigrationContext \<Rightarrow> (error option \<times> MigrationContext) outcome"
where
  "ReadMaxLoad_loop [] this = Returns (None, this)"
| "ReadMaxLoad_loop (maxLoadCondition # rest) this =
     (let maxLoadTokens = Split maxLoadCondition CHR ''=''
      in if length maxLoadTokens \<noteq> 2
         then Returns (Some (Errorf (''Error parsing max-load condition: '' @ maxLoadCondition)),
                       this)
         else if maxLoadTokens ! 0 = []
         then Returns (Some (Errorf (''Error parsing status variable in max-load condition: ''
                                     @ maxLoadCondition)), this)
         else (case ParseInt (maxLoadTokens ! 1) of
                 Inl err \<Rightarrow>
                   Returns (Some (Errorf (''Error parsing numeric value in max-load condition: ''
                                          @ maxLoadCondition)), this)
               | Inr n \<Rightarrow>
                   (case MaxLoad this of
                      None \<Rightarrow> Panics
                    | Some m \<Rightarrow>
                        ReadMaxLoad_loop rest
                          (this\<lparr>MaxLoad := Some (m(maxLoadTokens ! 0 \<mapsto> n))\<rparr>))))"

definition ReadMaxLoad ::
  "string \<Rightarrow> MigrationContext \<Rightarrow> (error option \<times> MigrationContext) outcome"
where
  "ReadMaxLoad maxLoadList this =
     (if maxLoadList = [] then Returns (None, this)
      else ReadMaxLoad_loop (Split maxLoadList CHR '','') this)"

subsection \<open>The syntax of a max-load string, in the words of the spec\<close>

text \<open>
  The spec: "a comma-separated list of variable=integer pairs"; a pair is malformed when
  it "lacks exactly one =, has an empty variable name, or has a non-integer value". The
  definitions below say this on the text of a condition, without the parser: the variable
  is the text before the first \<open>=\<close>, the value the text after it, and an integer is an
  optional sign followed by one or more decimal digits whose value fits the \<^verbatim>\<open>int64\<close>
  values of the mapping.
\<close>

definition is_digit :: "char \<Rightarrow> bool" where
  "is_digit c \<longleftrightarrow> c \<in> set ''0123456789''"

fun decimal_from :: "nat \<Rightarrow> string \<Rightarrow> nat" where
  "decimal_from n [] = n"
| "decimal_from n (d # ds) = decimal_from (10 * n + (of_char d - 48)) ds"

definition int_literal :: "string \<Rightarrow> int option" where
  "int_literal s =
     (let ds = (if take 1 s = ''+'' \<or> take 1 s = ''-'' then drop 1 s else s)
      in if ds \<noteq> [] \<and> list_all is_digit ds
         then Some (if take 1 s = ''-'' then - int (decimal_from 0 ds) else int (decimal_from 0 ds))
         else None)"

definition int64_literal :: "string \<Rightarrow> int option" where
  "int64_literal s =
     (case int_literal s of
        None \<Rightarrow> None
      | Some n \<Rightarrow> if - (2 ^ 63) \<le> n \<and> n < 2 ^ 63 then Some n else None)"

definition variable_of :: "string \<Rightarrow> string" where
  "variable_of cond = takeWhile (\<lambda>c. c \<noteq> CHR ''='') cond"

definition value_of :: "string \<Rightarrow> string" where
  "value_of cond = drop 1 (dropWhile (\<lambda>c. c \<noteq> CHR ''='') cond)"

definition wellformed :: "string \<Rightarrow> bool" where
  "wellformed cond \<longleftrightarrow>
     count_list cond CHR ''='' = 1 \<and> variable_of cond \<noteq> [] \<and>
     int64_literal (value_of cond) \<noteq> None"

text \<open>The items of a string, and the valid strings: the empty one and the lists of pairs.\<close>

definition conditions :: "string \<Rightarrow> string list" where
  "conditions s = (if s = [] then [] else Split s CHR '','')"

definition valid_max_load :: "string \<Rightarrow> bool" where
  "valid_max_load s \<longleftrightarrow> list_all wellformed (conditions s)"

text \<open>
  The pair a well-formed condition stands for, and the mapping a list of conditions
  stands for when it is stored over a prior mapping \<open>m\<close>: a variable that occurs more than
  once has the value of its last occurrence.
\<close>

definition pair_of :: "string \<Rightarrow> string \<times> int" where
  "pair_of cond =
     (variable_of cond, (case int64_literal (value_of cond) of Some n \<Rightarrow> n | None \<Rightarrow> 0))"

definition stored :: "string list \<Rightarrow> (string \<rightharpoonup> int) \<Rightarrow> (string \<rightharpoonup> int)" where
  "stored conds m = m ++ map_of (rev (map pair_of conds))"

text \<open>The error that names a malformed condition: which of the three tests it fails first.\<close>

definition offence :: "string \<Rightarrow> error" where
  "offence cond =
     (if count_list cond CHR ''='' \<noteq> 1
      then Errorf (''Error parsing max-load condition: '' @ cond)
      else if variable_of cond = []
      then Errorf (''Error parsing status variable in max-load condition: '' @ cond)
      else Errorf (''Error parsing numeric value in max-load condition: '' @ cond))"

text \<open>No variable is given two different values.\<close>

definition consistent :: "(string \<times> int) list \<Rightarrow> bool" where
  "consistent kvs \<longleftrightarrow> (\<forall>p \<in> set kvs. \<forall>q \<in> set kvs. fst p = fst q \<longrightarrow> snd p = snd q)"

subsection \<open>A concrete context for the examples\<close>

text \<open>
  The context and the store that \<^verbatim>\<open>init()\<close> creates when a new connection configuration has
  the zero value in every field.
\<close>

definition zeroConnectionConfig :: ConnectionConfig where
  "zeroConnectionConfig = \<lparr>Hostname = [], Port = 0, User = [], Password = []\<rparr>"

definition context0 :: MigrationContext where
  "context0 = fst (newMigrationContext zeroConnectionConfig)"

definition conns0 :: conns where
  "conns0 = snd (newMigrationContext zeroConnectionConfig)"

text \<open>
  Two variations: a context with a user in both layers and a password in the config file
  only, and a context whose applier pointer is the inspector pointer.
\<close>

definition cli_ctx :: MigrationContext where
  "cli_ctx =
     context0\<lparr>config := zeroContextConfig\<lparr>Client_User := ''file_user'',
                                             Client_Password := ''file_pw''\<rparr>,
              CliUser := ''cli_user''\<rparr>"

definition aliased_ctx :: MigrationContext where
  "aliased_ctx = context0\<lparr>ApplierConnectionConfig := Some 0, CliUser := ''cli_user''\<rparr>"

section \<open>Properties\<close>

subsection \<open>Auxiliary facts\<close>

lemma Equals_eq: "Equals x y \<longleftrightarrow> x = y"
  by (cases x, cases y) (auto simp: Equals_def)

lemma andThen_Returns [simp]: "andThen (Returns x) f = f x"
  by (simp add: andThen_def)

lemma andThen_Panics [simp]: "andThen Panics f = Panics"
  by (simp add: andThen_def)

lemma context0_fields:
  "configMutex context0 = Some 1" "InspectorConnectionConfig context0 = Some 0"
  "ApplierConnectionConfig context0 = Some 1" "MaxLoad context0 = Some Map.empty"
  "CliUser context0 = []" "CliPassword context0 = []" "config context0 = zeroContextConfig"
  "MigrationRangeMinValues context0 = None" "MigrationRangeMaxValues context0 = None"
  by (simp_all add: context0_def newMigrationContext_def)

lemma conns0_apply: "conns0 a = zeroConnectionConfig"
  by (simp add: conns0_def newMigrationContext_def)

text \<open>
  What \<open>ApplyCredentials\<close> returns when the mutex and the inspector configuration exist:
  the context as it was, and the store with the two credentials of the inspector
  configuration decided by the four tests of the source, the later test winning.
\<close>

lemma ApplyCredentials_Some:
  assumes "configMutex c \<noteq> None" and "InspectorConnectionConfig c = Some a"
  shows "ApplyCredentials (c, h) =
     Returns (c, h(a := (h a)\<lparr>
        User := (if CliUser c \<noteq> [] then CliUser c
                 else if Client_User (config c) \<noteq> [] then Client_User (config c)
                 else User (h a)),
        Password := (if CliPassword c \<noteq> [] then CliPassword c
                 else if Client_Password (config c) \<noteq> [] then Client_Password (config c)
                 else Password (h a))\<rparr>))"
  using assms by (auto simp: ApplyCredentials_def assign_User_def assign_Password_def fun_eq_iff)

subsection \<open>Derived names\<close>

text \<open>
  C4: the ghost, old and changelog table names are the original table name between the
  prefix \<open>_\<close> and the suffixes \<open>_gst\<close>, \<open>_old\<close>, \<open>_osc\<close>, so two contexts with the same original
  table name have the same three names, whatever their other fields; the voluntary lock
  name is \<open>database.table.lock\<close>, so two contexts with the same database name and the same
  original table name have the same lock name.
\<close>

theorem derived_names_deterministic:
  "GetGhostTableName c = ''_'' @ OriginalTableName c @ ''_gst'' \<and>
   GetOldTableName c = ''_'' @ OriginalTableName c @ ''_old'' \<and>
   GetChangelogTableName c = ''_'' @ OriginalTableName c @ ''_osc'' \<and>
   GetVoluntaryLockName c = DatabaseName c @ ''.'' @ OriginalTableName c @ ''.lock'' \<and>
   (OriginalTableName c = OriginalTableName c' \<longrightarrow>
      GetGhostTableName c = GetGhostTableName c' \<and>
      GetOldTableName c = GetOldTableName c' \<and>
      GetChangelogTableName c = GetChangelogTableName c') \<and>
   (DatabaseName c = DatabaseName c' \<and> OriginalTableName c = OriginalTableName c' \<longrightarrow>
      GetVoluntaryLockName c = GetVoluntaryLockName c')"
  by (simp add: GetGhostTableName_def GetOldTableName_def GetChangelogTableName_def
      GetVoluntaryLockName_def)

theorem derived_names_deterministic_witness:
  "GetGhostTableName (context0\<lparr>DatabaseName := ''shop'', OriginalTableName := ''orders''\<rparr>)
     = ''_orders_gst'' \<and>
   GetGhostTableName
     (context0\<lparr>DatabaseName := ''shop'', OriginalTableName := ''orders'', ChunkSize := 5\<rparr>)
     = ''_orders_gst'' \<and>
   GetVoluntaryLockName
     (context0\<lparr>DatabaseName := ''shop'', OriginalTableName := ''orders'', ChunkSize := 5\<rparr>)
     = GetVoluntaryLockName
         (context0\<lparr>DatabaseName := ''shop'', OriginalTableName := ''orders''\<rparr>) \<and>
   GetVoluntaryLockName (context0\<lparr>DatabaseName := ''shop'', OriginalTableName := ''orders''\<rparr>)
     = ''shop.orders.lock''"
  using derived_names_deterministic
    [of "context0\<lparr>DatabaseName := ''shop'', OriginalTableName := ''orders''\<rparr>"
        "context0\<lparr>DatabaseName := ''shop'', OriginalTableName := ''orders'', ChunkSize := 5\<rparr>"]
  by (simp add: GetGhostTableName_def GetVoluntaryLockName_def)

subsection \<open>Derived booleans\<close>

text \<open>
  C7: \<open>RequiresBinlogFormatChange\<close> is true if and only if the recorded original binlog
  format is not the string \<open>ROW\<close>.
\<close>

theorem RequiresBinlogFormatChange_iff:
  "RequiresBinlogFormatChange c \<longleftrightarrow> OriginalBinlogFormat c \<noteq> ''ROW''"
  by (simp add: RequiresBinlogFormatChange_def)

text \<open>
  C8, as the code has it: \<open>HasMigrationRange\<close> is true exactly when both global bounds of
  the migration key are present, and false in every other context: when both bounds are
  unset (the range is absent, as in a fresh context) and also when only one of the two
  bounds is set.
\<close>

theorem HasMigrationRange_iff:
  "HasMigrationRange c =
     (MigrationRangeMinValues c \<noteq> None \<and> MigrationRangeMaxValues c \<noteq> None) \<and>
   \<not> HasMigrationRange (c\<lparr>MigrationRangeMinValues := None, MigrationRangeMaxValues := None\<rparr>) \<and>
   HasMigrationRange
     (c\<lparr>MigrationRangeMinValues := Some lo, MigrationRangeMaxValues := Some hi\<rparr>) \<and>
   \<not> HasMigrationRange
     (c\<lparr>MigrationRangeMinValues := Some lo, MigrationRangeMaxValues := None\<rparr>) \<and>
   \<not> HasMigrationRange
     (c\<lparr>MigrationRangeMinValues := None, MigrationRangeMaxValues := Some hi\<rparr>) \<and>
   \<not> HasMigrationRange (fst (newMigrationContext ncc))"
  by (simp add: HasMigrationRange_def newMigrationContext_def)

text \<open>
  C8 as stated fails: in a context whose minimum is set and whose maximum is unset,
  \<open>HasMigrationRange\<close> is false although the two bounds are not both unset, so "false
  exactly when the minimum and the maximum are unset" does not hold there.
\<close>

theorem HasMigrationRange_one_bound_counterexample:
  "MigrationRangeMinValues (context0\<lparr>MigrationRangeMinValues := Some 0\<rparr>) = Some 0 \<and>
   MigrationRangeMaxValues (context0\<lparr>MigrationRangeMinValues := Some 0\<rparr>) = None \<and>
   HasMigrationRange (context0\<lparr>MigrationRangeMinValues := Some 0\<rparr>) = False \<and>
   \<not> (\<not> HasMigrationRange (context0\<lparr>MigrationRangeMinValues := Some 0\<rparr>) \<longleftrightarrow>
        MigrationRangeMinValues (context0\<lparr>MigrationRangeMinValues := Some 0\<rparr>) = None \<and>
        MigrationRangeMaxValues (context0\<lparr>MigrationRangeMinValues := Some 0\<rparr>) = None)"
  by (simp add: HasMigrationRange_def context0_fields)

text \<open>
  C6: when both connection configurations exist, \<open>InspectorIsAlsoApplier\<close> returns true if
  and only if the configuration the inspector pointer refers to equals the configuration
  the applier pointer refers to.
\<close>

theorem InspectorIsAlsoApplier_iff:
  assumes "InspectorConnectionConfig c = Some a" and "ApplierConnectionConfig c = Some b"
  shows "InspectorIsAlsoApplier (c, h) = Returns (h a = h b)"
  using assms by (simp add: InspectorIsAlsoApplier_def Equals_eq)

theorem InspectorIsAlsoApplier_iff_witness:
  "InspectorIsAlsoApplier (context0, conns0) = Returns True \<and>
   InspectorIsAlsoApplier
     (context0, conns0(1 := zeroConnectionConfig\<lparr>Hostname := ''replica''\<rparr>)) = Returns False"
  using InspectorIsAlsoApplier_iff [of context0 0 1 conns0]
    InspectorIsAlsoApplier_iff
      [of context0 0 1 "conns0(1 := zeroConnectionConfig\<lparr>Hostname := ''replica''\<rparr>)"]
  by (simp add: context0_fields conns0_apply zeroConnectionConfig_def)

subsection \<open>The constructor\<close>

text \<open>
  C9: a freshly created context has chunk size 1000, a replica-lag throttle threshold of
  1000 milliseconds (not zero), a swap-tables timeout of 3 seconds (not zero) and an empty,
  allocated max-load mapping.
\<close>

theorem newMigrationContext_defaults:
  "ChunkSize (fst (newMigrationContext ncc)) = 1000 \<and>
   MaxLagMillisecondsThrottleThreshold (fst (newMigrationContext ncc)) = 1000 \<and>
   MaxLagMillisecondsThrottleThreshold (fst (newMigrationContext ncc)) \<noteq> 0 \<and>
   SwapTablesTimeoutSeconds (fst (newMigrationContext ncc)) = 3 \<and>
   SwapTablesTimeoutSeconds (fst (newMigrationContext ncc)) \<noteq> 0 \<and>
   MaxLoad (fst (newMigrationContext ncc)) = Some Map.empty"
  by (simp add: newMigrationContext_def)

subsection \<open>ApplyCredentials\<close>

text \<open>
  C5: when the mutex and the inspector configuration exist, \<open>ApplyCredentials\<close> returns, and
  afterwards the user of the inspector configuration is the command-line user when that
  is set, else the config-file user when that is set, else the user it had before; the
  same holds for the password.
\<close>

theorem ApplyCredentials_cli_wins:
  assumes "configMutex c \<noteq> None" and "InspectorConnectionConfig c = Some a"
  shows "\<exists>h'. ApplyCredentials (c, h) = Returns (c, h') \<and>
     User (h' a) = (if CliUser c \<noteq> [] then CliUser c
                    else if Client_User (config c) \<noteq> [] then Client_User (config c)
                    else User (h a)) \<and>
     Password (h' a) = (if CliPassword c \<noteq> [] then CliPassword c
                    else if Client_Password (config c) \<noteq> [] then Client_Password (config c)
                    else Password (h a))"
  by (simp add: ApplyCredentials_Some [OF assms])

theorem ApplyCredentials_cli_wins_witness:
  "ApplyCredentials (cli_ctx, conns0) =
     Returns (cli_ctx,
              conns0(0 := zeroConnectionConfig\<lparr>User := ''cli_user'', Password := ''file_pw''\<rparr>))"
  using ApplyCredentials_cli_wins [of cli_ctx 0 conns0]
  by (auto simp add: cli_ctx_def context0_fields conns0_apply ApplyCredentials_Some)

text \<open>What \<open>ApplyCredentials\<close> has done whenever it returns.\<close>

lemma ApplyCredentials_None:
  assumes "InspectorConnectionConfig c = None" and "ApplyCredentials (c, h) = Returns (c', h')"
  shows "c' = c \<and> h' = h"
  using assms
  by (auto simp: ApplyCredentials_def assign_User_def assign_Password_def split: if_splits)

lemma ApplyCredentials_returns:
  assumes r: "ApplyCredentials (c, h) = Returns (c', h')"
  shows "c' = c \<and>
      (\<forall>b. Some b \<noteq> InspectorConnectionConfig c \<longrightarrow> h' b = h b) \<and>
      (\<forall>b. Hostname (h' b) = Hostname (h b) \<and> Port (h' b) = Port (h b)) \<and>
      (ApplierConnectionConfig c \<noteq> InspectorConnectionConfig c \<longrightarrow>
         applier_config (c', h') = applier_config (c, h)) \<and>
      (Client_User (config c) = [] \<and> CliUser c = [] \<longrightarrow> (\<forall>b. User (h' b) = User (h b))) \<and>
      (Client_Password (config c) = [] \<and> CliPassword c = [] \<longrightarrow>
         (\<forall>b. Password (h' b) = Password (h b)))"
proof (cases "InspectorConnectionConfig c")
  case None
  from ApplyCredentials_None [OF None r] show ?thesis by simp
next
  case (Some a)
  from r have m: "configMutex c \<noteq> None"
    by (auto simp: ApplyCredentials_def split: if_splits)
  let ?X = "h(a := (h a)\<lparr>
      User := (if CliUser c \<noteq> [] then CliUser c
               else if Client_User (config c) \<noteq> [] then Client_User (config c)
               else User (h a)),
      Password := (if CliPassword c \<noteq> [] then CliPassword c
               else if Client_Password (config c) \<noteq> [] then Client_Password (config c)
               else Password (h a))\<rparr>)"
  from r have "Returns (c, ?X) = Returns (c', h')"
    unfolding ApplyCredentials_Some [OF m Some] .
  then have c': "c' = c" and h': "h' = ?X"
    by (metis outcome.inject prod.inject)+
  have "applier_config (c, h') = applier_config (c, h)"
    if "ApplierConnectionConfig c \<noteq> Some a"
    using that by (cases "ApplierConnectionConfig c") (simp_all add: applier_config_def h')
  then show ?thesis
    by (simp add: c' Some) (simp add: h')
qed

text \<open>
  C10, as the code has it: \<open>ApplyCredentials\<close> returns when the mutex and the inspector
  configuration exist. Whenever it returns, the context is unchanged (every field, the
  two pointers included), every configuration other than the one the inspector pointer
  refers to is unchanged, no host or port changes, the configuration the applier pointer
  refers to is unchanged when the applier pointer differs from the inspector pointer, and
  a credential whose config-file value and command-line value are both empty is unchanged.
\<close>

theorem ApplyCredentials_frame:
  "(configMutex c \<noteq> None \<and> InspectorConnectionConfig c \<noteq> None \<longrightarrow>
      (\<exists>s'. ApplyCredentials (c, h) = Returns s')) \<and>
   (ApplyCredentials (c, h) = Returns (c', h') \<longrightarrow>
      c' = c \<and>
      (\<forall>b. Some b \<noteq> InspectorConnectionConfig c \<longrightarrow> h' b = h b) \<and>
      (\<forall>b. Hostname (h' b) = Hostname (h b) \<and> Port (h' b) = Port (h b)) \<and>
      (ApplierConnectionConfig c \<noteq> InspectorConnectionConfig c \<longrightarrow>
         applier_config (c', h') = applier_config (c, h)) \<and>
      (Client_User (config c) = [] \<and> CliUser c = [] \<longrightarrow> (\<forall>b. User (h' b) = User (h b))) \<and>
      (Client_Password (config c) = [] \<and> CliPassword c = [] \<longrightarrow>
         (\<forall>b. Password (h' b) = Password (h b))))"
proof (rule conjI)
  show "configMutex c \<noteq> None \<and> InspectorConnectionConfig c \<noteq> None \<longrightarrow>
      (\<exists>s'. ApplyCredentials (c, h) = Returns s')"
    by (auto simp: ApplyCredentials_Some)
next
  show "ApplyCredentials (c, h) = Returns (c', h') \<longrightarrow>
      c' = c \<and>
      (\<forall>b. Some b \<noteq> InspectorConnectionConfig c \<longrightarrow> h' b = h b) \<and>
      (\<forall>b. Hostname (h' b) = Hostname (h b) \<and> Port (h' b) = Port (h b)) \<and>
      (ApplierConnectionConfig c \<noteq> InspectorConnectionConfig c \<longrightarrow>
         applier_config (c', h') = applier_config (c, h)) \<and>
      (Client_User (config c) = [] \<and> CliUser c = [] \<longrightarrow> (\<forall>b. User (h' b) = User (h b))) \<and>
      (Client_Password (config c) = [] \<and> CliPassword c = [] \<longrightarrow>
         (\<forall>b. Password (h' b) = Password (h b)))"
    by (rule impI) (rule ApplyCredentials_returns)
qed

theorem ApplyCredentials_frame_witness:
  "ApplyCredentials (cli_ctx, conns0) =
     Returns (cli_ctx, conns0(0 := zeroConnectionConfig\<lparr>User := ''cli_user'', Password := ''file_pw''\<rparr>)) \<and>
   applier_config (cli_ctx, conns0(0 := zeroConnectionConfig\<lparr>User := ''cli_user'', Password := ''file_pw''\<rparr>))
     = applier_config (cli_ctx, conns0) \<and>
   applier_config (cli_ctx, conns0) = Some zeroConnectionConfig"
  using ApplyCredentials_frame [of cli_ctx conns0 cli_ctx
      "conns0(0 := zeroConnectionConfig\<lparr>User := ''cli_user'', Password := ''file_pw''\<rparr>)"]
  by (simp add: cli_ctx_def context0_fields conns0_apply ApplyCredentials_Some applier_config_def)

text \<open>
  C10 as stated fails when the two pointers are the same address: the command-line user
  is written into the one configuration both refer to, so the configuration of the
  applier changes.
\<close>

theorem ApplyCredentials_alias_counterexample:
  "ApplierConnectionConfig aliased_ctx = InspectorConnectionConfig aliased_ctx \<and>
   ApplyCredentials (aliased_ctx, conns0) =
     Returns (aliased_ctx, conns0(0 := zeroConnectionConfig\<lparr>User := ''cli_user''\<rparr>)) \<and>
   applier_config (aliased_ctx, conns0) = Some zeroConnectionConfig \<and>
   applier_config (aliased_ctx, conns0(0 := zeroConnectionConfig\<lparr>User := ''cli_user''\<rparr>))
     = Some (zeroConnectionConfig\<lparr>User := ''cli_user''\<rparr>) \<and>
   zeroConnectionConfig\<lparr>User := ''cli_user''\<rparr> \<noteq> zeroConnectionConfig"
  by (simp add: aliased_ctx_def context0_fields conns0_apply ApplyCredentials_Some
      applier_config_def zeroConnectionConfig_def zeroContextConfig_def)


subsection \<open>Splitting\<close>

text \<open>
  A split has one token more than the string has separators, and a string with exactly
  one separator splits into the text before it and the text after it.
\<close>

lemma genSplit_length: "length (genSplit sep tok s) = Suc (count_list s sep)"
  by (induction s arbitrary: tok) simp_all

lemma genSplit_unfold:
  "genSplit sep tok s =
     (tok @ takeWhile (\<lambda>c. c \<noteq> sep) s) #
     (case dropWhile (\<lambda>c. c \<noteq> sep) s of [] \<Rightarrow> [] | c # rest \<Rightarrow> genSplit sep [] rest)"
  by (induction s arbitrary: tok) simp_all

lemma genSplit_no_sep: "sep \<notin> set s \<Longrightarrow> genSplit sep tok s = [tok @ s]"
  by (induction s arbitrary: tok) auto

lemma Split_length: "length (Split s sep) = Suc (count_list s sep)"
  by (simp add: Split_def genSplit_length)

lemma count_list_0_iff': "count_list s x = 0 \<longleftrightarrow> x \<notin> set s"
  by (induction s) auto

lemma count_dropWhile:
  "count_list s sep = Suc n \<Longrightarrow>
   \<exists>rest. dropWhile (\<lambda>c. c \<noteq> sep) s = sep # rest \<and> count_list rest sep = n"
  by (induction s) (auto split: if_splits)

lemma Split_two:
  assumes "count_list cond sep = 1"
  shows "Split cond sep = [takeWhile (\<lambda>c. c \<noteq> sep) cond, drop 1 (dropWhile (\<lambda>c. c \<noteq> sep) cond)]"
proof -
  from assms obtain rest where d: "dropWhile (\<lambda>c. c \<noteq> sep) cond = sep # rest"
    and r: "count_list rest sep = 0"
    using count_dropWhile [of cond sep 0] by auto
  from r have "sep \<notin> set rest" by (simp add: count_list_0_iff')
  then have "genSplit sep [] rest = [rest]" by (simp add: genSplit_no_sep)
  then show ?thesis
    unfolding Split_def by (subst genSplit_unfold) (simp add: d)
qed


subsection \<open>ParseInt accepts exactly the 64-bit integer literals\<close>

text \<open>
  The digit loop of \<open>ParseUint\<close> computes the decimal value as long as it fits 64 bits and
  reports a range error when it does not; a byte that is not a digit is an error in every
  case. With the sign and the range test of \<open>ParseInt\<close>, the parser returns \<open>n\<close> exactly on
  the literals of \<open>n\<close>.
\<close>

lemma is_digit_iff: "is_digit d \<longleftrightarrow> 48 \<le> (of_char d :: nat) \<and> (of_char d :: nat) \<le> 57"
proof
  assume "is_digit d"
  then show "48 \<le> (of_char d :: nat) \<and> (of_char d :: nat) \<le> 57"
    by (auto simp: is_digit_def)
next
  assume a: "48 \<le> (of_char d :: nat) \<and> (of_char d :: nat) \<le> 57"
  define n where "n = (of_char d :: nat)"
  from a have "n = 48 \<or> n = 49 \<or> n = 50 \<or> n = 51 \<or> n = 52 \<or> n = 53 \<or> n = 54 \<or> n = 55 \<or>
     n = 56 \<or> n = 57"
    unfolding n_def [symmetric] by arith
  then have "n \<in> of_char ` set ''0123456789''"
    by auto
  then have "d \<in> set ''0123456789''"
    unfolding n_def by (simp only: inj_image_mem_iff [OF inj_of_char])
  then show "is_digit d"
    by (simp only: is_digit_def)
qed

lemma decimal_from_mono: "n \<le> decimal_from n ds"
proof (induction ds arbitrary: n)
  case Nil
  show ?case by simp
next
  case (Cons d ds)
  have "n \<le> 10 * n + (of_char d - 48)" by simp
  also have "\<dots> \<le> decimal_from (10 * n + (of_char d - 48)) ds" by (rule Cons.IH)
  finally show ?case by simp
qed

lemma loop_in_range:
  "list_all is_digit ds \<Longrightarrow> decimal_from n ds \<le> maxUint64 \<Longrightarrow>
   ParseUint_loop n ds = Inr (decimal_from n ds)"
proof (induction ds arbitrary: n)
  case Nil
  show ?case by simp
next
  case (Cons d ds)
  let ?n1 = "10 * n + (of_char d - 48)"
  from Cons.prems have d: "is_digit d"
    and rest: "list_all is_digit ds" and le: "decimal_from ?n1 ds \<le> maxUint64"
    by simp_all
  from d have dig: "48 \<le> (of_char d :: nat)" "(of_char d :: nat) \<le> 57"
    by (simp_all add: is_digit_iff)
  have n1: "?n1 \<le> maxUint64"
    using decimal_from_mono [of ?n1 ds] le by linarith
  then have "n < maxUint64 div 10 + 1" by linarith
  with n1 dig show ?case
    using Cons.IH [OF rest le] by (simp add: byte_def mult.commute)
qed

lemma loop_overflow:
  "list_all is_digit ds \<Longrightarrow> n \<le> maxUint64 \<Longrightarrow> decimal_from n ds > maxUint64 \<Longrightarrow>
   ParseUint_loop n ds = Inl ErrRange"
proof (induction ds arbitrary: n)
  case Nil
  then show ?case by simp
next
  case (Cons d ds)
  let ?n1 = "10 * n + (of_char d - 48)"
  from Cons.prems have d: "is_digit d"
    and rest: "list_all is_digit ds" and gt: "decimal_from ?n1 ds > maxUint64"
    by simp_all
  from d have dig: "48 \<le> (of_char d :: nat)" "(of_char d :: nat) \<le> 57"
    by (simp_all add: is_digit_iff)
  show ?case
  proof (cases "?n1 \<le> maxUint64")
    case True
    from Cons.IH [OF rest True gt] dig show ?thesis
      by (simp add: byte_def mult.commute)
  next
    case False
    with dig show ?thesis
      by (simp add: byte_def mult.commute)
  qed
qed

lemma loop_not_digits:
  "\<not> list_all is_digit ds \<Longrightarrow> \<exists>e. ParseUint_loop n ds = Inl e"
proof (induction ds arbitrary: n)
  case Nil
  then show ?case by simp
next
  case (Cons d ds)
  show ?case
  proof (cases "is_digit d")
    case True
    with Cons.prems have "\<not> list_all is_digit ds" by simp
    from Cons.IH [OF this] show ?thesis by simp
  next
    case False
    then show ?thesis by (simp add: is_digit_iff byte_def)
  qed
qed


lemma ParseUint_digits:
  assumes "ds \<noteq> []" and "list_all is_digit ds"
  shows "ParseUint ds =
     (if decimal_from 0 ds \<le> maxUint64 then Inr (decimal_from 0 ds) else Inl ErrRange)"
  using assms loop_in_range [of ds 0] loop_overflow [of ds 0]
  by (simp add: ParseUint_def)

lemma ParseUint_not_digits:
  assumes "ds = [] \<or> \<not> list_all is_digit ds"
  shows "\<exists>e. ParseUint ds = Inl e"
  using assms loop_not_digits [of ds 0] by (auto simp: ParseUint_def)

lemma ParseInt_Cons:
  "ParseInt (c # cs) =
     (case ParseUint (if c = CHR ''+'' \<or> c = CHR ''-'' then cs else c # cs) of
        Inl e \<Rightarrow> Inl e
      | Inr un \<Rightarrow>
          if c = CHR ''-'' then (if un > 2 ^ 63 then Inl ErrRange else Inr (- int un))
          else (if un \<ge> 2 ^ 63 then Inl ErrRange else Inr (int un)))"
  by (auto simp: ParseInt_def Let_def maxUint64_def split: sum.splits NumError.splits)

lemma int_literal_Cons:
  "int_literal (c # cs) =
     (let ds = (if c = CHR ''+'' \<or> c = CHR ''-'' then cs else c # cs)
      in if ds \<noteq> [] \<and> list_all is_digit ds
         then Some (if c = CHR ''-'' then - int (decimal_from 0 ds) else int (decimal_from 0 ds))
         else None)"
  by (simp add: int_literal_def Let_def)

lemma ParseInt_literal:
  "ParseInt s = (case int64_literal s of Some n \<Rightarrow> Inr n | None \<Rightarrow> ParseInt s) \<and>
   (int64_literal s = None \<longrightarrow> (\<exists>e. ParseInt s = Inl e))"
proof (cases s)
  case Nil
  then show ?thesis
    by (simp add: ParseInt_def int64_literal_def int_literal_def)
next
  case (Cons c cs)
  define ds where "ds = (if c = CHR ''+'' \<or> c = CHR ''-'' then cs else c # cs)"
  show ?thesis
  proof (cases "ds \<noteq> [] \<and> list_all is_digit ds")
    case False
    then have "int64_literal s = None"
      by (simp add: int64_literal_def int_literal_Cons Cons ds_def [symmetric])
    moreover from False obtain e where "ParseUint ds = Inl e"
      using ParseUint_not_digits [of ds] by auto
    then have "ParseInt s = Inl e"
      by (simp add: Cons ParseInt_Cons ds_def [symmetric])
    ultimately show ?thesis by simp
  next
    case True
    then have pu: "ParseUint ds =
       (if decimal_from 0 ds \<le> maxUint64 then Inr (decimal_from 0 ds) else Inl ErrRange)"
      by (simp add: ParseUint_digits)
    have il: "int_literal s =
       Some (if c = CHR ''-'' then - int (decimal_from 0 ds) else int (decimal_from 0 ds))"
      using True by (simp add: Cons int_literal_Cons ds_def [symmetric])
    have pi: "ParseInt s = (case ParseUint ds of
        Inl e \<Rightarrow> Inl e
      | Inr un \<Rightarrow>
          if c = CHR ''-'' then (if un > 2 ^ 63 then Inl ErrRange else Inr (- int un))
          else (if un \<ge> 2 ^ 63 then Inl ErrRange else Inr (int un)))"
      by (simp add: Cons ParseInt_Cons ds_def [symmetric])
    show ?thesis
      unfolding pi pu int64_literal_def il
      by (auto simp: maxUint64_def)
  qed
qed

lemma ParseInt_Some: "int64_literal s = Some n \<Longrightarrow> ParseInt s = Inr n"
  using ParseInt_literal [of s] by simp

lemma ParseInt_None: "int64_literal s = None \<Longrightarrow> \<exists>e. ParseInt s = Inl e"
  using ParseInt_literal [of s] by simp


subsection \<open>One turn of the loop, and the loop\<close>

lemma step_wellformed:
  assumes "wellformed cond" and "MaxLoad c = Some m"
  shows "ReadMaxLoad_loop (cond # rest) c =
     ReadMaxLoad_loop rest (c\<lparr>MaxLoad := Some (m(fst (pair_of cond) \<mapsto> snd (pair_of cond)))\<rparr>)"
proof -
  from assms(1) have cnt: "count_list cond CHR ''='' = 1" and var: "variable_of cond \<noteq> []"
    and lit: "int64_literal (value_of cond) \<noteq> None"
    by (simp_all add: wellformed_def)
  from lit obtain n where n: "int64_literal (value_of cond) = Some n" by auto
  have toks: "Split cond CHR ''='' = [variable_of cond, value_of cond]"
    using Split_two [OF cnt] by (simp add: variable_of_def value_of_def)
  have "ParseInt (value_of cond) = Inr n" by (rule ParseInt_Some [OF n])
  then show ?thesis
    using var assms(2) by (simp add: toks pair_of_def n)
qed

lemma step_malformed:
  assumes "\<not> wellformed cond"
  shows "ReadMaxLoad_loop (cond # rest) c = Returns (Some (offence cond), c)"
proof (cases "count_list cond CHR ''='' = 1")
  case False
  then have "length (Split cond CHR ''='') \<noteq> 2" by (simp add: Split_length)
  with False show ?thesis by (simp add: offence_def)
next
  case True
  have toks: "Split cond CHR ''='' = [variable_of cond, value_of cond]"
    using Split_two [OF True] by (simp add: variable_of_def value_of_def)
  show ?thesis
  proof (cases "variable_of cond = []")
    case True
    with \<open>count_list cond CHR ''='' = 1\<close> show ?thesis by (simp add: toks offence_def)
  next
    case False
    with assms True have "int64_literal (value_of cond) = None"
      by (simp add: wellformed_def)
    then obtain e where "ParseInt (value_of cond) = Inl e"
      using ParseInt_None by blast
    with False True show ?thesis by (simp add: toks offence_def)
  qed
qed

lemma stored_Cons:
  "stored (cond # conds) m = stored conds (m(fst (pair_of cond) \<mapsto> snd (pair_of cond)))"
  by (simp add: stored_def map_add_assoc [symmetric] map_add_upd)

lemma stored_Nil: "stored [] m = m"
  by (simp add: stored_def)

lemma loop_wellformed:
  "list_all wellformed conds \<Longrightarrow> MaxLoad c = Some m \<Longrightarrow>
   ReadMaxLoad_loop conds c = Returns (None, c\<lparr>MaxLoad := Some (stored conds m)\<rparr>)"
proof (induction conds arbitrary: c m)
  case Nil
  then show ?case by (simp add: stored_Nil)
next
  case (Cons cond conds)
  from Cons.prems have w: "wellformed cond" and ws: "list_all wellformed conds" by simp_all
  let ?c1 = "c\<lparr>MaxLoad := Some (m(fst (pair_of cond) \<mapsto> snd (pair_of cond)))\<rparr>"
  have c1: "MaxLoad ?c1 = Some (m(fst (pair_of cond) \<mapsto> snd (pair_of cond)))" by simp
  have "ReadMaxLoad_loop (cond # conds) c = ReadMaxLoad_loop conds ?c1"
    by (rule step_wellformed [OF w Cons.prems(2)])
  also have "\<dots> = Returns (None, ?c1\<lparr>MaxLoad := Some (stored conds
       (m(fst (pair_of cond) \<mapsto> snd (pair_of cond))))\<rparr>)"
    by (rule Cons.IH [OF ws c1])
  finally show ?case by (simp add: stored_Cons)
qed

lemma loop_malformed:
  "list_all wellformed good \<Longrightarrow> \<not> wellformed bad \<Longrightarrow> MaxLoad c = Some m \<Longrightarrow>
   ReadMaxLoad_loop (good @ bad # rest) c =
     Returns (Some (offence bad), c\<lparr>MaxLoad := Some (stored good m)\<rparr>)"
proof (induction good arbitrary: c m)
  case Nil
  then show ?case by (simp add: step_malformed stored_Nil del: ReadMaxLoad_loop.simps)
next
  case (Cons cond good)
  from Cons.prems have w: "wellformed cond" and ws: "list_all wellformed good" by simp_all
  let ?c1 = "c\<lparr>MaxLoad := Some (m(fst (pair_of cond) \<mapsto> snd (pair_of cond)))\<rparr>"
  have c1: "MaxLoad ?c1 = Some (m(fst (pair_of cond) \<mapsto> snd (pair_of cond)))" by simp
  have "ReadMaxLoad_loop ((cond # good) @ bad # rest) c = ReadMaxLoad_loop (good @ bad # rest) ?c1"
    using step_wellformed [OF w Cons.prems(3)] by simp
  also have "\<dots> = Returns (Some (offence bad), ?c1\<lparr>MaxLoad := Some (stored good
       (m(fst (pair_of cond) \<mapsto> snd (pair_of cond))))\<rparr>)"
    by (rule Cons.IH [OF ws Cons.prems(2) c1])
  finally show ?case by (simp add: stored_Cons)
qed

lemma find_malformed:
  assumes "\<not> list_all wellformed conds"
  shows "\<exists>bad rest. conds = takeWhile wellformed conds @ bad # rest \<and> \<not> wellformed bad \<and>
     find (\<lambda>cond. \<not> wellformed cond) conds = Some bad"
  using assms
proof (induction conds)
  case Nil
  then show ?case by simp
next
  case (Cons cond conds)
  then show ?case by (cases "wellformed cond") auto
qed

lemma conditions_nonempty: "s \<noteq> [] \<Longrightarrow> ReadMaxLoad s c = ReadMaxLoad_loop (conditions s) c"
  by (simp add: ReadMaxLoad_def conditions_def)

lemma ReadMaxLoad_valid:
  assumes "valid_max_load s" and "MaxLoad c = Some m"
  shows "ReadMaxLoad s c = Returns (None, c\<lparr>MaxLoad := Some (stored (conditions s) m)\<rparr>)"
proof (cases "s = []")
  case True
  with assms(2) show ?thesis by (simp add: ReadMaxLoad_def conditions_def stored_Nil)
next
  case False
  with assms show ?thesis
    by (simp add: conditions_nonempty valid_max_load_def loop_wellformed)
qed

lemma ReadMaxLoad_invalid:
  assumes "\<not> valid_max_load s" and "MaxLoad c = Some m"
  shows "\<exists>bad. find (\<lambda>cond. \<not> wellformed cond) (conditions s) = Some bad \<and>
     ReadMaxLoad s c =
       Returns (Some (offence bad),
                c\<lparr>MaxLoad := Some (stored (takeWhile wellformed (conditions s)) m)\<rparr>)"
proof -
  from assms(1) have nw: "\<not> list_all wellformed (conditions s)"
    by (simp add: valid_max_load_def)
  then have ne: "s \<noteq> []" by (auto simp: conditions_def)
  from find_malformed [OF nw] obtain bad rest
    where split: "conditions s = takeWhile wellformed (conditions s) @ bad # rest"
      and bad: "\<not> wellformed bad"
      and f: "find (\<lambda>cond. \<not> wellformed cond) (conditions s) = Some bad"
    by blast
  have good: "list_all wellformed (takeWhile wellformed (conditions s))"
    by (simp add: list_all_iff) (meson set_takeWhileD)
  have "ReadMaxLoad s c = ReadMaxLoad_loop (takeWhile wellformed (conditions s) @ bad # rest) c"
    using split conditions_nonempty [OF ne] by simp
  also have "\<dots> = Returns (Some (offence bad),
                c\<lparr>MaxLoad := Some (stored (takeWhile wellformed (conditions s)) m)\<rparr>)"
    by (rule loop_malformed [OF good bad assms(2)])
  finally show ?thesis using f by blast
qed

lemma error_names:
  "\<exists>p. (if A then Errorf (x @ bad) else if B then Errorf (y @ bad) else Errorf (z @ bad))
      = Errorf (p @ bad)"
  by (cases A; cases B) (simp_all only: if_True if_False, (rule exI, rule refl)+)

lemma offence_names: "\<exists>p. offence bad = Errorf (p @ bad)"
  unfolding offence_def by (rule error_names)

lemma stored_idem: "stored conds (stored conds m) = stored conds m"
  by (rule ext) (simp add: stored_def map_add_def split: option.splits)

lemma consistent_map_of:
  assumes "consistent kvs"
  shows "map_of kvs k = Some v \<longleftrightarrow> (k, v) \<in> set kvs"
proof
  assume "map_of kvs k = Some v"
  then show "(k, v) \<in> set kvs" by (rule map_of_SomeD)
next
  assume in_set: "(k, v) \<in> set kvs"
  then obtain v' where v': "map_of kvs k = Some v'"
    by (metis weak_map_of_SomeI)
  then have "(k, v') \<in> set kvs" by (rule map_of_SomeD)
  with in_set assms have "v' = v" by (fastforce simp: consistent_def)
  with v' show "map_of kvs k = Some v" by simp
qed

lemma consistent_set:
  assumes "set kvs = set kvs'" and "consistent kvs"
  shows "consistent kvs'"
  using assms(2) unfolding consistent_def assms(1) .

lemma consistent_map_of_eq:
  assumes "consistent kvs" and "set kvs = set kvs'"
  shows "map_of kvs = map_of kvs'"
proof (rule ext)
  fix k
  have c': "consistent kvs'" by (rule consistent_set [OF assms(2) assms(1)])
  show "map_of kvs k = map_of kvs' k"
  proof (cases "map_of kvs k")
    case None
    then have "k \<notin> fst ` set kvs" by (simp add: map_of_eq_None_iff)
    then have "map_of kvs' k = None" by (simp add: map_of_eq_None_iff assms(2))
    with None show ?thesis by simp
  next
    case (Some v)
    then have "(k, v) \<in> set kvs'" using consistent_map_of [OF assms(1)] assms(2) by simp
    then have "map_of kvs' k = Some v" using consistent_map_of [OF c'] by simp
    with Some show ?thesis by simp
  qed
qed

lemma stored_permutation:
  assumes "mset conds' = mset conds" and "consistent (map pair_of conds)"
  shows "stored conds' m = stored conds m"
proof -
  from assms(1) have "set conds' = set conds" by (rule mset_eq_setD)
  then have s: "set (rev (map pair_of conds)) = set (rev (map pair_of conds'))" by simp
  have "consistent (rev (map pair_of conds))"
    by (rule consistent_set [OF _ assms(2)]) simp
  from consistent_map_of_eq [OF this s] show ?thesis by (simp add: stored_def)
qed


subsection \<open>Concrete inputs\<close>

lemma Split_threads:
  "Split ''Threads_running=100,Threads_connected=500'' CHR '','' =
     [''Threads_running=100'', ''Threads_connected=500'']"
  "Split ''Threads_running=100'' CHR ''='' = [''Threads_running'', ''100'']"
  "Split ''Threads_connected=500'' CHR ''='' = [''Threads_connected'', ''500'']"
  by (simp_all add: Split_def)

lemma ParseInt_100_500: "ParseInt ''100'' = Inr 100" "ParseInt ''500'' = Inr 500"
  by (simp_all add: ParseInt_def ParseUint_def maxUint64_def byte_def)

lemma fresh_MaxLoad: "MaxLoad (fst (newMigrationContext ncc)) = Some Map.empty"
  by (simp add: newMigrationContext_def)

lemma Split_small:
  "Split ''a=1,b'' CHR '','' = [''a=1'', ''b'']"
  "Split ''a=1,a=2'' CHR '','' = [''a=1'', ''a=2'']"
  "Split ''a=2,a=1'' CHR '','' = [''a=2'', ''a=1'']"
  "Split ''a=1,b=2'' CHR '','' = [''a=1'', ''b=2'']"
  "Split ''b=2,a=1'' CHR '','' = [''b=2'', ''a=1'']"
  "Split ''Threads_running'' CHR '','' = [''Threads_running'']"
  "Split ''a=1'' CHR ''='' = [''a'', ''1'']"
  "Split ''a=2'' CHR ''='' = [''a'', ''2'']"
  "Split ''b=2'' CHR ''='' = [''b'', ''2'']"
  "Split ''b'' CHR ''='' = [''b'']"
  "Split ''Threads_running'' CHR ''='' = [''Threads_running'']"
  by (simp_all add: Split_def)

lemma ParseInt_small: "ParseInt ''1'' = Inr 1" "ParseInt ''2'' = Inr 2"
  by (simp_all add: ParseInt_def ParseUint_def maxUint64_def byte_def)

lemma wellformed_small:
  "wellformed ''a=1''" "wellformed ''a=2''" "wellformed ''b=2''" "\<not> wellformed ''b''"
  "\<not> wellformed ''Threads_running''"
  "wellformed ''Threads_running=100''" "wellformed ''Threads_connected=500''"
  by (simp_all add: wellformed_def variable_of_def value_of_def int64_literal_def
      int_literal_def is_digit_def)

lemma pair_of_small:
  "pair_of ''a=1'' = (''a'', 1)" "pair_of ''a=2'' = (''a'', 2)" "pair_of ''b=2'' = (''b'', 2)"
  "pair_of ''Threads_running=100'' = (''Threads_running'', 100)"
  "pair_of ''Threads_connected=500'' = (''Threads_connected'', 500)"
  by (simp_all add: pair_of_def variable_of_def value_of_def int64_literal_def
      int_literal_def is_digit_def)


subsection \<open>ReadMaxLoad on malformed strings\<close>

text \<open>
  C1, as the code has it: for every string that is not valid (some comma-separated item
  lacks exactly one \<open>=\<close>, or has an empty variable name, or has a value that is not a 64-bit
  integer literal) and every prior mapping \<open>m\<close>, \<open>ReadMaxLoad\<close> returns an error whose
  message names the first malformed item and which of the three tests it fails. The
  conditions before that item have been stored over \<open>m\<close>; nothing else of the context
  changes. When the first item of the string is the malformed one, the context is exactly
  as it was before the call.
\<close>

theorem ReadMaxLoad_malformed:
  assumes "\<not> valid_max_load s" and "MaxLoad c = Some m"
  shows "\<exists>bad. find (\<lambda>cond. \<not> wellformed cond) (conditions s) = Some bad \<and>
     (\<exists>p. offence bad = Errorf (p @ bad)) \<and>
     ReadMaxLoad s c =
       Returns (Some (offence bad),
                c\<lparr>MaxLoad := Some (stored (takeWhile wellformed (conditions s)) m)\<rparr>) \<and>
     (takeWhile wellformed (conditions s) = [] \<longrightarrow>
        ReadMaxLoad s c = Returns (Some (offence bad), c))"
proof -
  from ReadMaxLoad_invalid [OF assms] obtain bad
    where f: "find (\<lambda>cond. \<not> wellformed cond) (conditions s) = Some bad"
      and r: "ReadMaxLoad s c =
       Returns (Some (offence bad),
                c\<lparr>MaxLoad := Some (stored (takeWhile wellformed (conditions s)) m)\<rparr>)"
    by blast
  have u: "ReadMaxLoad s c = Returns (Some (offence bad), c)"
    if "takeWhile wellformed (conditions s) = []"
  proof -
    have "c\<lparr>MaxLoad := Some m\<rparr> = c" using assms(2) by simp
    with r show ?thesis by (simp only: that stored_Nil)
  qed
  show ?thesis
  proof (rule exI [of _ bad], intro conjI impI)
    show "find (\<lambda>cond. \<not> wellformed cond) (conditions s) = Some bad" by (rule f)
    show "\<exists>p. offence bad = Errorf (p @ bad)" by (rule offence_names)
    show "ReadMaxLoad s c =
       Returns (Some (offence bad),
                c\<lparr>MaxLoad := Some (stored (takeWhile wellformed (conditions s)) m)\<rparr>)"
      by (rule r)
  next
    assume "takeWhile wellformed (conditions s) = []"
    then show "ReadMaxLoad s c = Returns (Some (offence bad), c)" by (rule u)
  qed
qed

theorem ReadMaxLoad_malformed_witness:
  "\<not> valid_max_load ''a=1,b'' \<and>
   ReadMaxLoad ''a=1,b'' context0 =
     Returns (Some (Errorf ''Error parsing max-load condition: b''),
              context0\<lparr>MaxLoad := Some [''a'' \<mapsto> 1]\<rparr>) \<and>
   \<not> valid_max_load ''Threads_running'' \<and>
   ReadMaxLoad ''Threads_running'' context0 =
     Returns (Some (Errorf ''Error parsing max-load condition: Threads_running''), context0)"
  using ReadMaxLoad_malformed [of "''a=1,b''" context0 Map.empty]
    ReadMaxLoad_malformed [of "''Threads_running''" context0 Map.empty]
  by (simp add: valid_max_load_def conditions_def Split_small wellformed_small
      context0_fields stored_def pair_of_small offence_def)


text \<open>
  C1 as stated fails: on \<open>a=1,b\<close> the error for \<open>b\<close> is returned after \<open>a\<close> has been stored,
  so the mapping of a fresh context is no longer empty.
\<close>

theorem ReadMaxLoad_partial_counterexample:
  "\<not> valid_max_load ''a=1,b'' \<and>
   ReadMaxLoad ''a=1,b'' context0 =
     Returns (Some (Errorf ''Error parsing max-load condition: b''),
              context0\<lparr>MaxLoad := Some [''a'' \<mapsto> 1]\<rparr>) \<and>
   MaxLoad context0 = Some Map.empty \<and>
   MaxLoad (context0\<lparr>MaxLoad := Some [''a'' \<mapsto> 1]\<rparr>) \<noteq> MaxLoad context0"
proof -
  have "[''a'' \<mapsto> (1::int)] \<noteq> Map.empty" by simp
  then show ?thesis
    by (simp add: valid_max_load_def conditions_def Split_small wellformed_small
      context0_fields ReadMaxLoad_def ParseInt_small)
qed


subsection \<open>ReadMaxLoad on valid strings\<close>

text \<open>
  C2: for every valid string (the empty one, or a comma-separated list of
  variable=integer pairs with non-empty variable names) and every context whose mapping
  is allocated, \<open>ReadMaxLoad\<close> returns no error and the mapping becomes the prior mapping
  overwritten with the pairs of the string. The empty string returns no error and leaves
  every context as it is. On a fresh context, \<open>Threads_running=100,Threads_connected=500\<close>
  yields the mapping of \<open>Threads_running\<close> to 100 and \<open>Threads_connected\<close> to 500.
\<close>

theorem ReadMaxLoad_valid_mapping:
  "(valid_max_load s \<and> MaxLoad c = Some m \<longrightarrow>
      ReadMaxLoad s c = Returns (None, c\<lparr>MaxLoad := Some (stored (conditions s) m)\<rparr>)) \<and>
   ReadMaxLoad [] c = Returns (None, c) \<and>
   ReadMaxLoad ''Threads_running=100,Threads_connected=500'' (fst (newMigrationContext ncc)) =
     Returns (None, (fst (newMigrationContext ncc))
        \<lparr>MaxLoad := Some [''Threads_running'' \<mapsto> 100, ''Threads_connected'' \<mapsto> 500]\<rparr>)"
proof (intro conjI)
  show "valid_max_load s \<and> MaxLoad c = Some m \<longrightarrow>
      ReadMaxLoad s c = Returns (None, c\<lparr>MaxLoad := Some (stored (conditions s) m)\<rparr>)"
    by (simp add: ReadMaxLoad_valid)
  show "ReadMaxLoad [] c = Returns (None, c)"
    by (simp add: ReadMaxLoad_def)
  show "ReadMaxLoad ''Threads_running=100,Threads_connected=500'' (fst (newMigrationContext ncc)) =
     Returns (None, (fst (newMigrationContext ncc))
        \<lparr>MaxLoad := Some [''Threads_running'' \<mapsto> 100, ''Threads_connected'' \<mapsto> 500]\<rparr>)"
    by (simp add: ReadMaxLoad_def Split_threads ParseInt_100_500 fresh_MaxLoad)
qed


theorem ReadMaxLoad_valid_mapping_witness:
  "valid_max_load ''Threads_running=100,Threads_connected=500'' \<and>
   ReadMaxLoad ''Threads_running=100,Threads_connected=500'' context0 =
     Returns (None, context0
        \<lparr>MaxLoad := Some [''Threads_running'' \<mapsto> 100, ''Threads_connected'' \<mapsto> 500]\<rparr>)"
  using ReadMaxLoad_valid_mapping
    [of "''Threads_running=100,Threads_connected=500''" context0 Map.empty]
  by (simp add: valid_max_load_def conditions_def Split_threads wellformed_small
      context0_fields stored_def pair_of_small)


text \<open>
  C3, as the code has it: for every valid string, parsing it a second time returns no error
  and leaves the context that the first parse produced unchanged; and parsing any string
  whose conditions are a permutation of its conditions yields the same context, provided
  no variable is given two different values.
\<close>

theorem ReadMaxLoad_idempotent_permutation:
  assumes "valid_max_load s" and "MaxLoad c = Some m"
  shows "\<exists>c1. ReadMaxLoad s c = Returns (None, c1) \<and>
     ReadMaxLoad s c1 = Returns (None, c1) \<and>
     (\<forall>s'. mset (conditions s') = mset (conditions s) \<and>
            consistent (map pair_of (conditions s)) \<longrightarrow>
            ReadMaxLoad s' c = Returns (None, c1))"
proof -
  let ?c1 = "c\<lparr>MaxLoad := Some (stored (conditions s) m)\<rparr>"
  have m1: "MaxLoad ?c1 = Some (stored (conditions s) m)" by simp
  have first: "ReadMaxLoad s c = Returns (None, ?c1)"
    by (rule ReadMaxLoad_valid [OF assms])
  have second: "ReadMaxLoad s ?c1 = Returns (None, ?c1)"
    using ReadMaxLoad_valid [OF assms(1) m1] by (simp add: stored_idem)
  have third: "ReadMaxLoad s' c = Returns (None, ?c1)"
    if p: "mset (conditions s') = mset (conditions s)"
      and k: "consistent (map pair_of (conditions s))" for s'
  proof -
    from p have "set (conditions s') = set (conditions s)" by (rule mset_eq_setD)
    with assms(1) have "valid_max_load s'" by (simp add: valid_max_load_def list_all_iff)
    from ReadMaxLoad_valid [OF this assms(2)] show ?thesis
      by (simp add: stored_permutation [OF p k])
  qed
  show ?thesis
  proof (rule exI [of _ ?c1], intro conjI allI impI)
    show "ReadMaxLoad s c = Returns (None, ?c1)" by (rule first)
    show "ReadMaxLoad s ?c1 = Returns (None, ?c1)" by (rule second)
  next
    fix s'
    assume "mset (conditions s') = mset (conditions s) \<and>
          consistent (map pair_of (conditions s))"
    then show "ReadMaxLoad s' c = Returns (None, ?c1)" by (intro third) simp_all
  qed
qed

theorem ReadMaxLoad_idempotent_permutation_witness:
  "valid_max_load ''a=1,b=2'' \<and>
   ReadMaxLoad ''a=1,b=2'' context0 =
     Returns (None, context0\<lparr>MaxLoad := Some [''a'' \<mapsto> 1, ''b'' \<mapsto> 2]\<rparr>) \<and>
   ReadMaxLoad ''a=1,b=2'' (context0\<lparr>MaxLoad := Some [''a'' \<mapsto> 1, ''b'' \<mapsto> 2]\<rparr>) =
     Returns (None, context0\<lparr>MaxLoad := Some [''a'' \<mapsto> 1, ''b'' \<mapsto> 2]\<rparr>) \<and>
   ReadMaxLoad ''b=2,a=1'' context0 =
     Returns (None, context0\<lparr>MaxLoad := Some [''a'' \<mapsto> 1, ''b'' \<mapsto> 2]\<rparr>)"
proof -
  have v: "valid_max_load ''a=1,b=2''"
    by (simp add: valid_max_load_def conditions_def Split_small wellformed_small)
  have p: "mset (conditions ''b=2,a=1'') = mset (conditions ''a=1,b=2'')"
    by (simp add: conditions_def Split_small)
  have k: "consistent (map pair_of (conditions ''a=1,b=2''))"
    by (simp add: conditions_def Split_small pair_of_small consistent_def)
  have r: "ReadMaxLoad ''a=1,b=2'' context0 =
     Returns (None, context0\<lparr>MaxLoad := Some [''a'' \<mapsto> 1, ''b'' \<mapsto> 2]\<rparr>)"
    by (simp add: ReadMaxLoad_def Split_small ParseInt_small context0_fields)
  from ReadMaxLoad_idempotent_permutation [OF v context0_fields(4)] obtain c1
    where 1: "ReadMaxLoad ''a=1,b=2'' context0 = Returns (None, c1)"
      and 2: "ReadMaxLoad ''a=1,b=2'' c1 = Returns (None, c1)"
      and 3: "\<forall>s'. mset (conditions s') = mset (conditions ''a=1,b=2'') \<and>
            consistent (map pair_of (conditions ''a=1,b=2'')) \<longrightarrow>
            ReadMaxLoad s' context0 = Returns (None, c1)"
    by blast
  from 1 r have c1: "c1 = context0\<lparr>MaxLoad := Some [''a'' \<mapsto> 1, ''b'' \<mapsto> 2]\<rparr>" by simp
  from 3 p k have "ReadMaxLoad ''b=2,a=1'' context0 = Returns (None, c1)" by blast
  with v r 2 show ?thesis by (simp add: c1)
qed


text \<open>
  C3 as stated fails: \<open>a=1,a=2\<close> and \<open>a=2,a=1\<close> are valid, each a permutation of the other,
  and the later pair wins, so the first leaves \<open>a\<close> at 2 and the second at 1.
\<close>

theorem ReadMaxLoad_order_counterexample:
  "valid_max_load ''a=1,a=2'' \<and>
   mset (conditions ''a=2,a=1'') = mset (conditions ''a=1,a=2'') \<and>
   ReadMaxLoad ''a=1,a=2'' context0 =
     Returns (None, context0\<lparr>MaxLoad := Some [''a'' \<mapsto> 2]\<rparr>) \<and>
   ReadMaxLoad ''a=2,a=1'' context0 =
     Returns (None, context0\<lparr>MaxLoad := Some [''a'' \<mapsto> 1]\<rparr>) \<and>
   MaxLoad (context0\<lparr>MaxLoad := Some [''a'' \<mapsto> 2]\<rparr>) \<noteq>
   MaxLoad (context0\<lparr>MaxLoad := Some [''a'' \<mapsto> 1]\<rparr>)"
proof -
  have "[''a'' \<mapsto> (2::int)] \<noteq> [''a'' \<mapsto> 1]"
    by (auto dest: map_upd_eqD1)
  then show ?thesis
    by (simp add: valid_max_load_def conditions_def Split_small wellformed_small
      context0_fields ReadMaxLoad_def ParseInt_small)
qed

end
